theory Spec2Isabelle
  imports Main "HOL-Library.Sublist"
begin

section \<open>Go library functions used by app.go\<close>

text \<open>
  A Go string is a sequence of bytes; \<open>string\<close> (a list of 8-bit characters) models it
  byte for byte, and \<open>len(s)\<close> is \<open>length s\<close>.

  \<open>strings.TrimSpace\<close> removes leading and trailing white space as \<open>unicode.IsSpace\<close>
  defines it. The runes with that property are listed below by their UTF-8 encodings:
  the six ASCII ones (tab, line feed, vertical tab, form feed, carriage return, space),
  U+0085, U+00A0, U+1680, U+2000 to U+200A, U+2028, U+2029, U+202F, U+205F and U+3000.
  A byte sequence that is not well-formed UTF-8 decodes to the error rune of width one,
  which is not white space, so trimming stops there.
\<close>

definition spaceRunes :: "string list" where
  "spaceRunes =
     [[CHR 0x09], [CHR 0x0A], [CHR 0x0B], [CHR 0x0C], [CHR 0x0D], [CHR 0x20],
      [CHR 0xC2, CHR 0x85], [CHR 0xC2, CHR 0xA0],
      [CHR 0xE1, CHR 0x9A, CHR 0x80],
      [CHR 0xE2, CHR 0x80, CHR 0x80], [CHR 0xE2, CHR 0x80, CHR 0x81],
      [CHR 0xE2, CHR 0x80, CHR 0x82], [CHR 0xE2, CHR 0x80, CHR 0x83],
      [CHR 0xE2, CHR 0x80, CHR 0x84], [CHR 0xE2, CHR 0x80, CHR 0x85],
      [CHR 0xE2, CHR 0x80, CHR 0x86], [CHR 0xE2, CHR 0x80, CHR 0x87],
      [CHR 0xE2, CHR 0x80, CHR 0x88], [CHR 0xE2, CHR 0x80, CHR 0x89],
      [CHR 0xE2, CHR 0x80, CHR 0x8A],
      [CHR 0xE2, CHR 0x80, CHR 0xA8], [CHR 0xE2, CHR 0x80, CHR 0xA9],
      [CHR 0xE2, CHR 0x80, CHR 0xAF],
      [CHR 0xE2, CHR 0x81, CHR 0x9F],
      [CHR 0xE3, CHR 0x80, CHR 0x80]]"

text \<open>The width in bytes of the white-space rune a string starts with (ends with), 0 when
  it starts (ends) with anything else.\<close>

definition leadingSpace :: "string \<Rightarrow> nat" where
  "leadingSpace s =
     (case find (\<lambda>w. prefix w s) spaceRunes of None \<Rightarrow> 0 | Some w \<Rightarrow> length w)"

definition trailingSpace :: "string \<Rightarrow> nat" where
  "trailingSpace s =
     (case find (\<lambda>w. suffix w s) spaceRunes of None \<Rightarrow> 0 | Some w \<Rightarrow> length w)"

function TrimLeft :: "string \<Rightarrow> string" where
  "TrimLeft s = (if s = [] \<or> leadingSpace s = 0 then s else TrimLeft (drop (leadingSpace s) s))"
  by pat_completeness auto
termination
  by (relation "measure length") auto

function TrimRight :: "string \<Rightarrow> string" where
  "TrimRight s =
     (if s = [] \<or> trailingSpace s = 0 then s
      else TrimRight (take (length s - trailingSpace s) s))"
  by pat_completeness auto
termination
  by (relation "measure length") auto

definition TrimSpace :: "string \<Rightarrow> string" where
  "TrimSpace s = TrimRight (TrimLeft s)"

text \<open>\<open>strings.Index(s, substr)\<close>: the byte index of the first occurrence of \<open>substr\<close> in
  \<open>s\<close>, or -1 when there is none.\<close>

fun Index :: "string \<Rightarrow> string \<Rightarrow> int" where
  "Index [] substr = (if substr = [] then 0 else - 1)"
| "Index (a # s) substr =
     (if prefix substr (a # s) then 0
      else (let r = Index s substr in if r < 0 then - 1 else r + 1))"

section \<open>Data model of app.go\<close>

text \<open>Verbosity levels (\<open>uint\<close>, \<open>iota\<close> from 0), hook event names and exit codes.\<close>

definition VerbQuiet :: nat where "VerbQuiet = 0"
definition VerbError :: nat where "VerbError = 1"
definition VerbWarn :: nat where "VerbWarn = 2"
definition VerbInfo :: nat where "VerbInfo = 3"
definition VerbDebug :: nat where "VerbDebug = 4"
definition VerbCrazy :: nat where "VerbCrazy = 5"

definition EvtInit :: string where "EvtInit = ''init''"
definition EvtBefore :: string where "EvtBefore = ''before''"
definition EvtAfter :: string where "EvtAfter = ''after''"
definition EvtError :: string where "EvtError = ''error''"

definition OK :: int where "OK = 0"
definition ERR :: int where "ERR = 2"
definition HelpCommand :: string where "HelpCommand = ''help''"

text \<open>
  A \<open>HookFunc\<close> is a caller-supplied closure. The catalog never looks inside one, so a
  handler is modelled by its identity: \<open>defaultErrHandler\<close> is the package's own handler
  that \<open>Initialize\<close> installs, \<open>Handler k\<close> stands for the k-th closure of the caller.
  The payload handed to \<open>fireEvent\<close> is an \<open>interface{}\<close>; \<open>None\<close> is \<open>nil\<close>.
\<close>

datatype HookFunc = defaultErrHandler | Handler nat

type_synonym payload = "string option"

record Logo =
  Text :: string
  Style :: string

text \<open>
  \<open>*Command\<close> is a pointer: commands live in a store and the maps of the catalog hold
  addresses. Maps that Go leaves \<open>nil\<close> until \<open>make\<close> are options of maps, since an
  assignment into a \<open>nil\<close> map panics. The embedded \<open>SimpleHooks\<close> is the field \<open>hooks\<close>,
  the embedded \<open>HelpVars\<close> the field \<open>Vars\<close>; the shared \<open>*CmdLine\<close> is not used by
  the functions modelled here and left out. The alias map is only ever written by
  \<open>AddAliases\<close>, whose body is not in app.go; its \<open>nil\<close> is not told apart from the empty
  map.
\<close>

type_synonym addr = nat

record App =
  Name :: string
  Version :: string
  Description :: string
  Logo :: Logo
  Strict :: bool
  names :: "(string \<rightharpoonup> int) option"
  errors :: "string list"
  aliases :: "string \<rightharpoonup> string"
  commands :: "(string \<rightharpoonup> addr) option"
  moduleCommands :: "(string \<rightharpoonup> (string \<rightharpoonup> addr)) option"
  commandName :: string
  nameMaxLength :: int
  defaultCommand :: string
  cleanArgs :: "string list"
  Vars :: "string \<rightharpoonup> string"
  hooks :: "string \<rightharpoonup> HookFunc list"

text \<open>
  The type \<open>Command\<close> is declared outside app.go. The fields app.go reads or writes are
  \<open>Name\<close>, \<open>Module\<close>, \<open>Aliases\<close>, the back-reference \<open>app\<close> (there is one application in
  the model, so the pointer is either \<open>nil\<close> or set) and the flag behind \<open>IsDisabled\<close>;
  \<open>rest\<close> stands for every other field, of a type the catalog does not depend on.
\<close>

record 'x Command =
  Name :: string
  Module :: string
  Aliases :: "string list"
  Disabled :: bool
  app :: bool
  rest :: 'x

text \<open>
  What a run can be observed to do besides changing the application: the messages
  handed to the logging sink (level, format, arguments) and the activity of the hook
  registry, in order.
\<close>

datatype hook_event =
    Installed string HookFunc
  | Fired string
  | Invoked string HookFunc payload

record 'x state =
  the_app :: App
  heap :: "addr \<rightharpoonup> 'x Command"
  verbose :: nat
  logged :: "(nat \<times> string \<times> string list) list"
  hook_trace :: "hook_event list"

text \<open>A call either returns, or ends the process: \<open>Fatal\<close> is \<open>exitWithErr\<close> with its
  message, \<open>Panic\<close> a run-time panic of Go (\<open>nil\<close> pointer, assignment into a \<open>nil\<close> map).
  The state at the point of the abort is kept.\<close>

datatype error = Fatal string | Panic

type_synonym ('x, 'a) result = "(error \<times> 'x state) + ('a \<times> 'x state)"

section \<open>Collaborators of app.go\<close>

text \<open>
  Modelled from the spec: \<open>Logf\<close>, whose body is not in app.go. It compares the level of
  the message with the process-wide threshold; if the level is at most the threshold the
  message goes to the logging sink, otherwise the call is a silent no-op.
\<close>

definition Logf :: "nat \<Rightarrow> string \<Rightarrow> string list \<Rightarrow> 'x state \<Rightarrow> 'x state" where
  "Logf level format args s =
     (if level \<le> verbose s then s\<lparr>logged := logged s @ [(level, format, args)]\<rparr> else s)"

text \<open>
  Modelled from the spec: \<open>exitWithErr\<close>, whose body is not in app.go. The process reports
  the descriptive message and terminates immediately.
\<close>

definition exitWithErr :: "string \<Rightarrow> 'x state \<Rightarrow> ('x, 'a) result" where
  "exitWithErr msg s = Inl (Fatal msg, s)"

text \<open>
  Modelled from the spec: \<open>Command.IsDisabled\<close>, whose body is not in app.go. It reads the
  boolean flag \<open>Disabled\<close> of the entry.
\<close>

definition IsDisabled :: "'x Command \<Rightarrow> bool" where
  "IsDisabled c = Disabled c"

text \<open>
  Modelled from the spec: \<open>App.AddAliases\<close>, whose body is not in app.go. For each alias
  string of the list, in order, it sets \<open>aliases[alias] = canonicalName\<close>, overwriting
  any prior mapping for that alias string; it checks nothing and logs nothing.
\<close>

fun AddAliases :: "string \<Rightarrow> string list \<Rightarrow> 'x state \<Rightarrow> 'x state" where
  "AddAliases name [] s = s"
| "AddAliases name (alias # others) s =
     AddAliases name others
       (s\<lparr>the_app := (the_app s)\<lparr>aliases := (aliases (the_app s))(alias \<mapsto> name)\<rparr>\<rparr>)"

text \<open>
  Modelled from the spec: \<open>HelpVars.AddVars\<close>, whose body is not in app.go. It hands a
  mapping of variables to the help renderer, here the field \<open>Vars\<close>. The mapping that
  \<open>App.helpVars\<close> builds from the metadata of the application is a parameter of
  \<open>Initialize\<close>.
\<close>

definition AddVars :: "(string \<rightharpoonup> string) \<Rightarrow> 'x state \<Rightarrow> 'x state" where
  "AddVars vars s = s\<lparr>the_app := (the_app s)\<lparr>Vars := Vars (the_app s) ++ vars\<rparr>\<rparr>"

text \<open>
  Modelled from the spec: the methods \<open>On\<close>, \<open>Add\<close> and \<open>Fire\<close> of \<open>SimpleHooks\<close>, whose
  bodies are not in app.go. The registry maps an event name to an ordered sequence of
  handlers. Registering appends the handler to the list of the event and creates the
  list if absent; \<open>Add\<close> is the registration \<open>Initialize\<close> uses to pre-install the
  default handler. Firing invokes every handler registered for the event, in
  registration order, exactly once each, with the source object and the payload; with no
  handler registered it invokes nothing. What a handler does when invoked is the
  caller's code and outside the model: the invocation is recorded.
\<close>

definition handlers :: "'x state \<Rightarrow> string \<Rightarrow> HookFunc list" where
  "handlers s name = (case hooks (the_app s) name of None \<Rightarrow> [] | Some hs \<Rightarrow> hs)"

definition SimpleHooks_On :: "string \<Rightarrow> HookFunc \<Rightarrow> 'x state \<Rightarrow> 'x state" where
  "SimpleHooks_On name handler s =
     s\<lparr>the_app := (the_app s)\<lparr>hooks := (hooks (the_app s))(name \<mapsto> handlers s name @ [handler])\<rparr>,
       hook_trace := hook_trace s @ [Installed name handler]\<rparr>"

definition SimpleHooks_Add :: "string \<Rightarrow> HookFunc \<Rightarrow> 'x state \<Rightarrow> 'x state" where
  "SimpleHooks_Add name handler s =
     s\<lparr>the_app := (the_app s)\<lparr>hooks := (hooks (the_app s))(name \<mapsto> handlers s name @ [handler])\<rparr>,
       hook_trace := hook_trace s @ [Installed name handler]\<rparr>"

definition SimpleHooks_Fire :: "string \<Rightarrow> payload \<Rightarrow> 'x state \<Rightarrow> 'x state" where
  "SimpleHooks_Fire event data s =
     s\<lparr>hook_trace :=
         hook_trace s @ Fired event # map (\<lambda>h. Invoked event h data) (handlers s event)\<rparr>"

section \<open>The functions of app.go\<close>

text \<open>
  \<open>App.AddCommand\<close>, statement by statement. \<open>c\<close> is the pointer handed in, \<open>initialize\<close>
  the method \<open>Command.initialize\<close> (declared outside app.go), which computes the other
  fields of the entry from the entry; it is taken to write none of the fields app.go
  reads and nothing of the application. The bucket of a module is the one the map
  holds, or a new empty one when the map holds none.
\<close>

definition AddCommand ::
    "('x Command \<Rightarrow> 'x) \<Rightarrow> addr \<Rightarrow> 'x state \<Rightarrow> ('x, addr) result" where
  "AddCommand initialize c s =
     (case heap s c of
        None \<Rightarrow> Inl (Panic, s)
      | Some c0 \<Rightarrow>
          let c1 = c0\<lparr>Name := TrimSpace (Name c0)\<rparr>;
              s1 = s\<lparr>heap := (heap s)(c \<mapsto> c1)\<rparr>
          in
          if Name c1 = [] then exitWithErr ''The added command name can not be empty.'' s1
          else if IsDisabled c1 then
            Inr (c, Logf VerbDebug ''command %s has been disabled, skip add'' [Name c1] s1)
          else
            let i = Index (Name c1) '':'' in
            if i = 0 then exitWithErr ''The added command module can not be empty.'' s1
            else
              let c2 = c1\<lparr>Module := (if i > - 1 then take (nat i) (Name c1) else [])\<rparr>;
                  s2 = s1\<lparr>heap := (heap s1)(c \<mapsto> c2)\<rparr>;
                  nameLen = int (length (Name c2))
              in
              (case names (the_app s2) of
                 None \<Rightarrow> Inl (Panic, s2)
               | Some ns \<Rightarrow>
                   let s3 = s2\<lparr>the_app := (the_app s2)\<lparr>names := Some (ns(Name c2 \<mapsto> nameLen))\<rparr>\<rparr>
                   in
                   (case commands (the_app s3) of
                      None \<Rightarrow> Inl (Panic, s3)
                    | Some cs \<Rightarrow>
                        let s4 = s3\<lparr>the_app := (the_app s3)\<lparr>commands := Some (cs(Name c2 \<mapsto> c))\<rparr>\<rparr>;
                            s5 = (if nameLen > nameMaxLength (the_app s4)
                                  then s4\<lparr>the_app := (the_app s4)\<lparr>nameMaxLength := nameLen\<rparr>\<rparr>
                                  else s4)
                        in
                        (case moduleCommands (the_app s5) of
                           None \<Rightarrow> Inl (Panic, s5)
                         | Some ms \<Rightarrow>
                             let bucket = (case ms (Module c2) of
                                             None \<Rightarrow> Map.empty
                                           | Some b \<Rightarrow> b);
                                 s6 = s5\<lparr>the_app := (the_app s5)
                                        \<lparr>moduleCommands :=
                                           Some (ms(Module c2 \<mapsto> bucket(Name c2 \<mapsto> c)))\<rparr>\<rparr>;
                                 s7 = AddAliases (Name c2) (Aliases c2) s6;
                                 s8 = Logf VerbDebug
                                        ''[App.AddCommand] add a new CLI command: %s''
                                        [Name c2] s7;
                                 c3 = c2\<lparr>app := True\<rparr>;
                                 c4 = c3\<lparr>rest := initialize c3\<rparr>
                             in Inr (c, s8\<lparr>heap := (heap s8)(c \<mapsto> c4)\<rparr>)))))"

text \<open>\<open>App.Add\<close>: \<open>AddCommand\<close> on the first entry, then on each further one in argument
  order; the results are dropped, and an abort inside a call ends the run.\<close>

fun AddMore :: "('x Command \<Rightarrow> 'x) \<Rightarrow> addr list \<Rightarrow> 'x state \<Rightarrow> ('x, unit) result" where
  "AddMore initialize [] s = Inr ((), s)"
| "AddMore initialize (cmd # others) s =
     (case AddCommand initialize cmd s of
        Inl e \<Rightarrow> Inl e
      | Inr (_, s') \<Rightarrow> AddMore initialize others s')"

definition Add ::
    "('x Command \<Rightarrow> 'x) \<Rightarrow> addr \<Rightarrow> addr list \<Rightarrow> 'x state \<Rightarrow> ('x, unit) result" where
  "Add initialize c others s =
     (case AddCommand initialize c s of
        Inl e \<Rightarrow> Inl e
      | Inr (_, s') \<Rightarrow> if length others > 0 then AddMore initialize others s' else Inr ((), s'))"

text \<open>\<open>App.On\<close> and \<open>App.fireEvent\<close>: a debug message, then the registry.\<close>

definition On :: "string \<Rightarrow> HookFunc \<Rightarrow> 'x state \<Rightarrow> 'x state" where
  "On name handler s =
     SimpleHooks_On name handler (Logf VerbDebug ''[App.On] add application hook: %s'' [name] s)"

definition fireEvent :: "string \<Rightarrow> payload \<Rightarrow> 'x state \<Rightarrow> 'x state" where
  "fireEvent event data s =
     SimpleHooks_Fire event data
       (Logf VerbDebug ''[App.Fire] trigger the application event: %s'' [event] s)"

text \<open>\<open>App.Initialize\<close>; \<open>helpVars\<close> is the mapping \<open>App.helpVars\<close> builds.\<close>

definition Initialize :: "(App \<Rightarrow> (string \<rightharpoonup> string)) \<Rightarrow> 'x state \<Rightarrow> 'x state" where
  "Initialize helpVars s =
     (let s1 = s\<lparr>the_app := (the_app s)\<lparr>names := Some Map.empty\<rparr>\<rparr>;
          s2 = AddVars (helpVars (the_app s1)) s1;
          s3 = SimpleHooks_Add EvtError defaultErrHandler s2
      in fireEvent EvtInit None s3)"

text \<open>\<open>NewApp\<close>: the struct literal (every field it does not name has Go's zero value),
  the optional callback \<open>fn[0]\<close>, then \<open>Initialize\<close>. \<open>g\<close> is the state of the process
  before the call; the new application replaces \<open>the_app\<close>.\<close>

definition newAppLiteral :: App where
  "newAppLiteral =
     \<lparr>App.Name = ''My CLI App'', Version = ''1.0.0'', Description = [],
      Logo = \<lparr>Text = [], Style = ''info''\<rparr>, Strict = False,
      names = None, errors = [], aliases = Map.empty,
      commands = Some Map.empty, moduleCommands = Some Map.empty,
      commandName = [], nameMaxLength = 12, defaultCommand = [], cleanArgs = [],
      Vars = Map.empty, hooks = Map.empty\<rparr>"

definition NewApp ::
    "(App \<Rightarrow> (string \<rightharpoonup> string)) \<Rightarrow> ('x state \<Rightarrow> 'x state) list \<Rightarrow> 'x state \<Rightarrow> 'x state" where
  "NewApp helpVars fn g =
     (let s0 = g\<lparr>the_app := newAppLiteral\<rparr>;
          s1 = (if length fn > 0 then (fn ! 0) s0 else s0)
      in Initialize helpVars s1)"

text \<open>\<open>App.Config\<close> runs the callback unless it is \<open>nil\<close>; \<open>App.SetLogo\<close>,
  \<open>App.DefaultCommand\<close> and \<open>App.AddError\<close> write one field each.\<close>

definition Config :: "('x state \<Rightarrow> 'x state) option \<Rightarrow> 'x state \<Rightarrow> 'x state" where
  "Config fn s = (case fn of None \<Rightarrow> s | Some f \<Rightarrow> f s)"

definition SetLogo :: "string \<Rightarrow> string list \<Rightarrow> 'x state \<Rightarrow> 'x state" where
  "SetLogo logo style s =
     (let s1 = s\<lparr>the_app := (the_app s)\<lparr>Logo := (Logo (the_app s))\<lparr>Text := logo\<rparr>\<rparr>\<rparr>
      in if length style > 0
         then s1\<lparr>the_app := (the_app s1)\<lparr>Logo := (Logo (the_app s1))\<lparr>Style := style ! 0\<rparr>\<rparr>\<rparr>
         else s1)"

definition DefaultCommand :: "string \<Rightarrow> 'x state \<Rightarrow> 'x state" where
  "DefaultCommand name s = s\<lparr>the_app := (the_app s)\<lparr>defaultCommand := name\<rparr>\<rparr>"

definition AddError :: "string \<Rightarrow> 'x state \<Rightarrow> 'x state" where
  "AddError err s = s\<lparr>the_app := (the_app s)\<lparr>errors := errors (the_app s) @ [err]\<rparr>\<rparr>"

text \<open>
  \<open>App.SetDebugMode\<close>, \<open>App.SetQuietMode\<close> and \<open>App.SetVerbose\<close> call the functions of the
  package with the same names, whose bodies are not in app.go. Modelled from the spec:
  they set the process-wide level to \<open>Crazy\<close>, to \<open>Quiet\<close> and to the level given.
\<close>

definition SetDebugMode :: "'x state \<Rightarrow> 'x state" where
  "SetDebugMode s = s\<lparr>verbose := VerbCrazy\<rparr>"

definition SetQuietMode :: "'x state \<Rightarrow> 'x state" where
  "SetQuietMode s = s\<lparr>verbose := VerbQuiet\<rparr>"

definition SetVerbose :: "nat \<Rightarrow> 'x state \<Rightarrow> 'x state" where
  "SetVerbose level s = s\<lparr>verbose := level\<rparr>"

text \<open>\<open>App.Names\<close>, \<open>App.Commands\<close> and \<open>App.CleanArgs\<close> return the live maps and
  slice.\<close>

definition Names :: "'x state \<Rightarrow> (string \<rightharpoonup> int) option" where
  "Names s = names (the_app s)"

definition Commands :: "'x state \<Rightarrow> (string \<rightharpoonup> addr) option" where
  "Commands s = commands (the_app s)"

definition CleanArgs :: "'x state \<Rightarrow> string list" where
  "CleanArgs s = cleanArgs (the_app s)"

section \<open>Notions used in the statements\<close>

text \<open>The state a call leaves behind, whether it returned or aborted.\<close>

definition final_state :: "('x, 'a) result \<Rightarrow> 'x state" where
  "final_state r = (case r of Inl (e, s) \<Rightarrow> s | Inr (a, s) \<Rightarrow> s)"

text \<open>The three maps \<open>AddCommand\<close> assigns into have been made, as they are in every
  application that \<open>NewApp\<close> returns.\<close>

definition allocated :: "'x state \<Rightarrow> bool" where
  "allocated s \<longleftrightarrow>
     names (the_app s) \<noteq> None \<and> commands (the_app s) \<noteq> None \<and>
     moduleCommands (the_app s) \<noteq> None"

text \<open>A process with eight command objects and no application yet, and the application
  \<open>NewApp()\<close> builds in it; \<open>Command.initialize\<close> and \<open>App.helpVars\<close> are trivial here.\<close>

definition entry :: "string \<Rightarrow> string list \<Rightarrow> bool \<Rightarrow> unit Command" where
  "entry n al d = \<lparr>Name = n, Module = [], Aliases = al, Disabled = d, app = False, rest = ()\<rparr>"

definition example_process :: "unit state" where
  "example_process =
     \<lparr>the_app = newAppLiteral,
      heap = [0 \<mapsto> entry '' mod:cmd '' [''mc''] False,
              2 \<mapsto> entry '':foo'' [] True,
              3 \<mapsto> entry '' foo'' [] True,
              4 \<mapsto> entry ''   '' [] False,
              5 \<mapsto> entry '':foo'' [] False,
              6 \<mapsto> entry ''foo'' [''f''] False,
              7 \<mapsto> entry ''module:long-command'' [] False,
              8 \<mapsto> entry ''mod:cmd'' [] False],
      verbose = VerbDebug, logged = [], hook_trace = []\<rparr>"

definition example_app :: "unit state" where
  "example_app = NewApp (\<lambda>a. Map.empty) [] example_process"

section \<open>Library facts\<close>

declare TrimLeft.simps [simp del] TrimRight.simps [simp del]

lemma Index_colon:
  "Index n '':'' =
     (if CHR '':'' \<in> set n then int (length (takeWhile (\<lambda>ch. ch \<noteq> CHR '':'') n)) else - 1)"
  by (induction n) (auto simp: Let_def)

lemma Index_colon_0: "Index n '':'' = 0 \<longleftrightarrow> (\<exists>r. n = CHR '':'' # r)"
  by (cases n) (auto simp: Let_def Index_colon)

lemma module_prefix:
  "(if Index n '':'' > - 1 then take (nat (Index n '':'')) n else []) =
     (if CHR '':'' \<in> set n then takeWhile (\<lambda>ch. ch \<noteq> CHR '':'') n else [])"
  by (simp add: Index_colon takeWhile_eq_take [symmetric])

lemma TrimSpace_examples:
  "TrimSpace '' mod:cmd '' = ''mod:cmd''"
  "TrimSpace ''mod:cmd'' = ''mod:cmd''"
  "TrimSpace '':foo'' = '':foo''"
  "TrimSpace '' foo'' = ''foo''"
  "TrimSpace ''   '' = []"
  "TrimSpace ''foo'' = ''foo''"
  "TrimSpace ''module:long-command'' = ''module:long-command''"
  by code_simp+

section \<open>Frame lemmas for the collaborators\<close>

lemma AddAliases_frame:
  "heap (AddAliases n as s) = heap s"
  "verbose (AddAliases n as s) = verbose s"
  "logged (AddAliases n as s) = logged s"
  "hook_trace (AddAliases n as s) = hook_trace s"
  "names (the_app (AddAliases n as s)) = names (the_app s)"
  "commands (the_app (AddAliases n as s)) = commands (the_app s)"
  "moduleCommands (the_app (AddAliases n as s)) = moduleCommands (the_app s)"
  "nameMaxLength (the_app (AddAliases n as s)) = nameMaxLength (the_app s)"
  "hooks (the_app (AddAliases n as s)) = hooks (the_app s)"
  by (induction n as s rule: AddAliases.induct) simp_all

lemma AddAliases_aliases:
  "aliases (the_app (AddAliases n as s)) a =
     (if a \<in> set as then Some n else aliases (the_app s) a)"
  by (induction n as s rule: AddAliases.induct) auto

lemma Logf_frame:
  "heap (Logf l f a s) = heap s"
  "verbose (Logf l f a s) = verbose s"
  "hook_trace (Logf l f a s) = hook_trace s"
  "the_app (Logf l f a s) = the_app s"
  by (simp_all add: Logf_def)

section \<open>The paths through AddCommand\<close>

lemma AddCommand_nil:
  "heap s c = None \<Longrightarrow> AddCommand initialize c s = Inl (Panic, s)"
  by (simp add: AddCommand_def)

lemma AddCommand_empty:
  "heap s c = Some e \<Longrightarrow> TrimSpace (Name e) = [] \<Longrightarrow>
   AddCommand initialize c s =
     Inl (Fatal ''The added command name can not be empty.'',
          s\<lparr>heap := (heap s)(c \<mapsto> e\<lparr>Name := []\<rparr>)\<rparr>)"
  by (simp add: AddCommand_def exitWithErr_def)

lemma AddCommand_skipped:
  "heap s c = Some e \<Longrightarrow> TrimSpace (Name e) = n \<Longrightarrow> n \<noteq> [] \<Longrightarrow> Disabled e \<Longrightarrow>
   AddCommand initialize c s =
     Inr (c, Logf VerbDebug ''command %s has been disabled, skip add'' [n]
               (s\<lparr>heap := (heap s)(c \<mapsto> e\<lparr>Name := n\<rparr>)\<rparr>))"
  by (simp add: AddCommand_def IsDisabled_def)

lemma AddCommand_colon:
  "heap s c = Some e \<Longrightarrow> TrimSpace (Name e) = CHR '':'' # r \<Longrightarrow> \<not> Disabled e \<Longrightarrow>
   AddCommand initialize c s =
     Inl (Fatal ''The added command module can not be empty.'',
          s\<lparr>heap := (heap s)(c \<mapsto> e\<lparr>Name := CHR '':'' # r\<rparr>)\<rparr>)"
  by (simp add: AddCommand_def IsDisabled_def exitWithErr_def)

lemma AddCommand_accepted:
  assumes "heap s c = Some e" and "TrimSpace (Name e) = n" and "n \<noteq> []"
    and "\<not> Disabled e" and "Index n '':'' \<noteq> 0"
    and "names (the_app s) = Some ns" and "commands (the_app s) = Some cs"
    and "moduleCommands (the_app s) = Some ms"
    and "m = (if CHR '':'' \<in> set n then takeWhile (\<lambda>ch. ch \<noteq> CHR '':'') n else [])"
  shows "\<exists>s'. AddCommand initialize c s = Inr (c, s')
     \<and> names (the_app s') = Some (ns(n \<mapsto> int (length n)))
     \<and> commands (the_app s') = Some (cs(n \<mapsto> c))
     \<and> nameMaxLength (the_app s') = max (nameMaxLength (the_app s)) (int (length n))
     \<and> moduleCommands (the_app s') =
          Some (ms(m \<mapsto> (case ms m of None \<Rightarrow> Map.empty | Some b \<Rightarrow> b)(n \<mapsto> c)))
     \<and> heap s' = (heap s)(c \<mapsto> e\<lparr>Name := n, Module := m, app := True,
            rest := initialize (e\<lparr>Name := n, Module := m, app := True\<rparr>)\<rparr>)"
proof -
  have mp: "(if Index n '':'' > - 1 then take (nat (Index n '':'')) n else []) = m"
    using assms(9) by (simp only: module_prefix)
  show ?thesis
  proof (cases "- 1 < Index n '':''")
    case True
    with mp have "m = take (nat (Index n '':'')) n" by simp
    with True assms(1-8) show ?thesis
      by (simp add: AddCommand_def Let_def IsDisabled_def exitWithErr_def
          AddAliases_frame Logf_frame max_def split: option.splits)
  next
    case False
    with mp have "m = []" by simp
    with False assms(1-8) show ?thesis
      by (simp add: AddCommand_def Let_def IsDisabled_def exitWithErr_def
          AddAliases_frame Logf_frame max_def split: option.splits)
  qed
qed

lemma AddCommand_mono:
  "nameMaxLength (the_app s) \<le> nameMaxLength (the_app (final_state (AddCommand initialize c s)))"
proof (cases "heap s c")
  case None
  then show ?thesis by (simp add: AddCommand_nil final_state_def)
next
  case (Some e)
  define n where "n = TrimSpace (Name e)"
  show ?thesis
  proof (cases "n = []")
    case True
    with Some n_def show ?thesis by (simp add: AddCommand_empty final_state_def)
  next
    case ne: False
    show ?thesis
    proof (cases "Disabled e")
      case True
      with Some n_def ne show ?thesis
        by (simp add: AddCommand_skipped final_state_def Logf_frame)
    next
      case en: False
      show ?thesis
        using Some n_def ne en
        by (simp add: AddCommand_def Let_def IsDisabled_def exitWithErr_def final_state_def
            AddAliases_frame Logf_frame split: option.splits)
    qed
  qed
qed

section \<open>The example application\<close>

lemma example_app_fields:
  "heap example_app = heap example_process"
  "names (the_app example_app) = Some Map.empty"
  "commands (the_app example_app) = Some Map.empty"
  "moduleCommands (the_app example_app) = Some Map.empty"
  "nameMaxLength (the_app example_app) = 12"
  "aliases (the_app example_app) = Map.empty"
  by (simp_all add: example_app_def NewApp_def Initialize_def fireEvent_def SimpleHooks_Fire_def
      SimpleHooks_Add_def AddVars_def Logf_def Let_def example_process_def newAppLiteral_def)

lemma example_app_verbose: "verbose example_app = VerbDebug"
  by (simp add: example_app_def NewApp_def Initialize_def fireEvent_def SimpleHooks_Fire_def
      SimpleHooks_Add_def AddVars_def Logf_def Let_def example_process_def)

lemma example_app_allocated: "allocated example_app"
  by (simp add: allocated_def example_app_fields)

lemma example_heap:
  "heap example_app 0 = Some (entry '' mod:cmd '' [''mc''] False)"
  "heap example_app 8 = Some (entry ''mod:cmd'' [] False)"
  "heap example_app 2 = Some (entry '':foo'' [] True)"
  "heap example_app 3 = Some (entry '' foo'' [] True)"
  "heap example_app 4 = Some (entry ''   '' [] False)"
  "heap example_app 5 = Some (entry '':foo'' [] False)"
  "heap example_app 6 = Some (entry ''foo'' [''f''] False)"
  "heap example_app 7 = Some (entry ''module:long-command'' [] False)"
  by (simp_all add: example_app_fields example_process_def)

lemma entry_fields:
  "Name (entry n al d) = n" "Module (entry n al d) = []" "Aliases (entry n al d) = al"
  "Disabled (entry n al d) = d" "IsDisabled (entry n al d) = d"
  by (simp_all add: entry_def IsDisabled_def)

section \<open>The maps of an application\<close>

lemma NewApp_allocated: "allocated (NewApp helpVars [] g)"
  by (simp add: allocated_def NewApp_def Initialize_def fireEvent_def SimpleHooks_Fire_def
      SimpleHooks_Add_def AddVars_def Logf_def Let_def newAppLiteral_def)

lemma AddCommand_allocated:
  assumes "allocated s"
  shows "allocated (final_state (AddCommand initialize c s))"
proof (cases "heap s c")
  case None
  with assms show ?thesis
    by (simp add: AddCommand_nil final_state_def)
next
  case (Some e)
  with assms show ?thesis
    by (auto simp: AddCommand_def Let_def IsDisabled_def exitWithErr_def final_state_def
        allocated_def AddAliases_frame Logf_frame)
qed

section \<open>Registration of an accepted entry\<close>

text \<open>
  C1. Let the entry at \<open>c\<close> be enabled, with a name that is non-empty after trimming and
  has no colon at position 0, in an application whose maps are made. Then
  \<open>AddCommand\<close> returns \<open>c\<close>, and afterwards \<open>Commands()\<close> maps the trimmed name to \<open>c\<close>,
  \<open>Names()\<close> maps it to its length, \<open>nameMaxLength\<close> is at least that length, and the
  entry carries the trimmed name.
\<close>

theorem AddCommand_registers:
  assumes "heap s c = Some e" and "allocated s"
    and "n = TrimSpace (Name e)" and "n \<noteq> []" and "hd n \<noteq> CHR '':''"
    and "\<not> IsDisabled e"
  shows "\<exists>s' cm nm e'. AddCommand initialize c s = Inr (c, s')
     \<and> Commands s' = Some cm \<and> cm n = Some c
     \<and> Names s' = Some nm \<and> nm n = Some (int (length n))
     \<and> int (length n) \<le> nameMaxLength (the_app s')
     \<and> heap s' c = Some e' \<and> Name e' = n"
proof -
  from assms(2) obtain ns cs ms where maps:
    "names (the_app s) = Some ns" "commands (the_app s) = Some cs"
    "moduleCommands (the_app s) = Some ms"
    by (auto simp: allocated_def)
  from assms(4,5) have idx: "Index n '':'' \<noteq> 0"
    by (auto simp: Index_colon_0)
  from assms(6) have en: "\<not> Disabled e"
    by (simp add: IsDisabled_def)
  from AddCommand_accepted [where initialize = initialize,
      OF assms(1) assms(3) [symmetric] assms(4) en idx maps refl]
  obtain s' where s': "AddCommand initialize c s = Inr (c, s')"
    "names (the_app s') = Some (ns(n \<mapsto> int (length n)))"
    "commands (the_app s') = Some (cs(n \<mapsto> c))"
    "nameMaxLength (the_app s') = max (nameMaxLength (the_app s)) (int (length n))"
    "heap s' c \<noteq> None \<and> Name (the (heap s' c)) = n"
    by auto
  then show ?thesis
    by (auto simp: Commands_def Names_def)
qed

theorem AddCommand_registers_witness:
  "\<exists>s' cm nm e'. AddCommand (\<lambda>c. ()) 0 example_app = Inr (0, s')
     \<and> Commands s' = Some cm \<and> cm ''mod:cmd'' = Some 0
     \<and> Names s' = Some nm \<and> nm ''mod:cmd'' = Some 7
     \<and> 7 \<le> nameMaxLength (the_app s')
     \<and> heap s' 0 = Some e' \<and> Name e' = ''mod:cmd''"
  using AddCommand_registers [of example_app 0 "entry '' mod:cmd '' [''mc''] False"
      "''mod:cmd''" "\<lambda>c. ()"]
  by (simp add: example_heap example_app_allocated entry_fields TrimSpace_examples)

section \<open>Entries that are refused or skipped\<close>

text \<open>
  C2, as the code has it. If the name is empty after trimming, or the entry is enabled
  and its trimmed name has a colon at position 0, \<open>AddCommand\<close> ends the process with a
  descriptive message, and at the point of the abort nothing of the application has
  changed: \<open>commands\<close>, \<open>names\<close>, \<open>moduleCommands\<close> and \<open>aliases\<close> are as before.
  (A disabled entry with a leading colon is skipped, not refused.)
\<close>

theorem AddCommand_fatal:
  assumes "heap s c = Some e" and "n = TrimSpace (Name e)"
    and "n = [] \<or> (\<not> IsDisabled e \<and> hd n = CHR '':'')"
  shows "\<exists>msg s'. AddCommand initialize c s = Inl (Fatal msg, s')
     \<and> msg = (if n = [] then ''The added command name can not be empty.''
               else ''The added command module can not be empty.'')
     \<and> the_app s' = the_app s
     \<and> Commands s' = Commands s \<and> Names s' = Names s
     \<and> moduleCommands (the_app s') = moduleCommands (the_app s)
     \<and> aliases (the_app s') = aliases (the_app s)"
proof (cases "n = []")
  case True
  with assms(1,2) show ?thesis
    by (simp add: AddCommand_empty Commands_def Names_def)
next
  case False
  with assms(3) have "\<not> Disabled e" and "hd n = CHR '':''"
    by (simp_all add: IsDisabled_def)
  with False obtain r where "n = CHR '':'' # r"
    by (cases n) auto
  with assms(2) have "TrimSpace (Name e) = CHR '':'' # r"
    by simp
  from AddCommand_colon [where initialize = initialize,
      OF assms(1) this \<open>\<not> Disabled e\<close>] False
  show ?thesis
    by (simp add: Commands_def Names_def)
qed

theorem AddCommand_fatal_witness:
  "(\<exists>s'. AddCommand (\<lambda>c. ()) 5 example_app =
          Inl (Fatal ''The added command module can not be empty.'', s')
     \<and> the_app s' = the_app example_app
     \<and> Commands s' = Commands example_app \<and> Names s' = Names example_app
     \<and> moduleCommands (the_app s') = moduleCommands (the_app example_app)
     \<and> aliases (the_app s') = aliases (the_app example_app))
   \<and> (\<exists>s'. AddCommand (\<lambda>c. ()) 4 example_app =
          Inl (Fatal ''The added command name can not be empty.'', s')
     \<and> the_app s' = the_app example_app)"
proof -
  have c: "'':foo'' = TrimSpace (Name (entry '':foo'' [] False))"
    and e: "[] = TrimSpace (Name (entry ''   '' [] False))"
    by (simp_all add: entry_fields TrimSpace_examples)
  have "'':foo'' = [] \<or> (\<not> IsDisabled (entry '':foo'' [] False) \<and> hd '':foo'' = CHR '':'')"
    by (simp add: entry_fields)
  from AddCommand_fatal [where initialize = "\<lambda>c. ()", OF example_heap(6) c this]
  have colon: "\<exists>s'. AddCommand (\<lambda>c. ()) 5 example_app =
          Inl (Fatal ''The added command module can not be empty.'', s')
     \<and> the_app s' = the_app example_app
     \<and> Commands s' = Commands example_app \<and> Names s' = Names example_app
     \<and> moduleCommands (the_app s') = moduleCommands (the_app example_app)
     \<and> aliases (the_app s') = aliases (the_app example_app)"
    by simp
  have "[] = [] \<or> (\<not> IsDisabled (entry ''   '' [] False) \<and> hd [] = CHR '':'')"
    by simp
  from AddCommand_fatal [where initialize = "\<lambda>c. ()", OF example_heap(5) e this]
  have empty: "\<exists>s'. AddCommand (\<lambda>c. ()) 4 example_app =
          Inl (Fatal ''The added command name can not be empty.'', s')
     \<and> the_app s' = the_app example_app"
    by auto
  from colon empty show ?thesis
    by blast
qed

text \<open>
  C2 as stated fails: a disabled entry named \<open>:foo\<close> has a colon at position 0, and
  \<open>AddCommand\<close> returns it instead of ending the process.
\<close>

theorem AddCommand_fatal_counterexample:
  "\<exists>e s'. heap example_app 2 = Some e \<and> hd (TrimSpace (Name e)) = CHR '':''
     \<and> AddCommand (\<lambda>c. ()) 2 example_app = Inr (2, s')"
  by (simp add: example_heap entry_fields TrimSpace_examples
      AddCommand_skipped [of example_app 2 "entry '':foo'' [] True" "'':foo''"])

text \<open>
  C3, as the code has it. For a disabled entry whose trimmed name is non-empty,
  \<open>AddCommand\<close> returns the pointer it was given and stores nothing: no field of the
  application changes, so \<open>Commands()\<close> and \<open>Names()\<close> are what they were (the name is
  in them afterwards only if it was before), and no other command object changes. Of
  the entry, \<open>Name\<close> is replaced by its trimmed value and every other field is kept; an
  entry whose name was already trimmed is unchanged. The hook registry is not touched;
  the only output is the debug message.
\<close>

theorem AddCommand_skips_disabled:
  assumes "heap s c = Some e" and "n = TrimSpace (Name e)" and "n \<noteq> []"
    and "IsDisabled e"
  shows "\<exists>s'. AddCommand initialize c s = Inr (c, s')
     \<and> the_app s' = the_app s \<and> Commands s' = Commands s \<and> Names s' = Names s
     \<and> (\<forall>cm. Commands s = Some cm \<and> cm n = None \<longrightarrow> Commands s' = Some cm \<and> cm n = None)
     \<and> (\<forall>nm. Names s = Some nm \<and> nm n = None \<longrightarrow> Names s' = Some nm \<and> nm n = None)
     \<and> heap s' = (heap s)(c \<mapsto> e\<lparr>Name := n\<rparr>)
     \<and> (Name e = n \<longrightarrow> heap s' = heap s)
     \<and> hook_trace s' = hook_trace s
     \<and> logged s' = logged s @
          (if VerbDebug \<le> verbose s
           then [(VerbDebug, ''command %s has been disabled, skip add'', [n])] else [])"
proof -
  from assms(4) have "Disabled e" by (simp add: IsDisabled_def)
  from AddCommand_skipped [where initialize = initialize,
      OF assms(1) assms(2) [symmetric] assms(3) this]
  have "AddCommand initialize c s =
      Inr (c, Logf VerbDebug ''command %s has been disabled, skip add'' [n]
                (s\<lparr>heap := (heap s)(c \<mapsto> e\<lparr>Name := n\<rparr>)\<rparr>))" .
  moreover have "Name e = n \<Longrightarrow> (heap s)(c \<mapsto> e\<lparr>Name := n\<rparr>) = heap s"
    using assms(1) by auto
  ultimately show ?thesis
    by (simp add: Logf_def Commands_def Names_def)
qed

theorem AddCommand_skips_disabled_witness:
  "\<exists>s'. AddCommand (\<lambda>c. ()) 3 example_app = Inr (3, s')
     \<and> the_app s' = the_app example_app
     \<and> Commands s' = Some Map.empty \<and> Names s' = Some Map.empty
     \<and> heap s' = (heap example_app)(3 \<mapsto> (entry '' foo'' [] True)\<lparr>Name := ''foo''\<rparr>)
     \<and> logged s' = logged example_app @
          [(VerbDebug, ''command %s has been disabled, skip add'', [''foo''])]"
proof -
  have h: "heap example_app 3 = Some (entry '' foo'' [] True)"
    by (simp add: example_heap)
  have n: "''foo'' = TrimSpace (Name (entry '' foo'' [] True))"
    by (simp add: entry_fields TrimSpace_examples)
  have d: "IsDisabled (entry '' foo'' [] True)"
    by (simp add: entry_fields)
  from AddCommand_skips_disabled [where initialize = "\<lambda>c. ()", OF h n _ d]
  obtain s' where "AddCommand (\<lambda>c. ()) 3 example_app = Inr (3, s')"
    "the_app s' = the_app example_app"
    "heap s' = (heap example_app)(3 \<mapsto> (entry '' foo'' [] True)\<lparr>Name := ''foo''\<rparr>)"
    "logged s' = logged example_app @
       (if VerbDebug \<le> verbose example_app
        then [(VerbDebug, ''command %s has been disabled, skip add'', [''foo''])] else [])"
    by auto
  then show ?thesis
    by (simp add: Commands_def Names_def example_app_fields example_app_verbose)
qed

text \<open>
  C3 as stated fails twice over. The name of a disabled entry is trimmed before the
  entry is looked at, so the entry handed in with the name \<open>" foo"\<close> comes back with the
  name \<open>"foo"\<close>. And a name that an earlier registration stored is still in
  \<open>Commands()\<close> after a disabled entry of that name was handed in.
\<close>

theorem AddCommand_skips_disabled_counterexample:
  "(\<exists>e s' e'. heap example_app 3 = Some e \<and> IsDisabled e \<and> TrimSpace (Name e) \<noteq> []
      \<and> AddCommand (\<lambda>c. ()) 3 example_app = Inr (3, s')
      \<and> heap s' 3 = Some e' \<and> Name e = '' foo'' \<and> Name e' = ''foo'')
   \<and> (\<exists>s1 e s2 cm. AddCommand (\<lambda>c. ()) 6 example_app = Inr (6, s1)
      \<and> heap s1 3 = Some e \<and> IsDisabled e \<and> TrimSpace (Name e) = ''foo''
      \<and> AddCommand (\<lambda>c. ()) 3 s1 = Inr (3, s2)
      \<and> Commands s2 = Some cm \<and> cm ''foo'' = Some 6)"
proof
  show "\<exists>e s' e'. heap example_app 3 = Some e \<and> IsDisabled e \<and> TrimSpace (Name e) \<noteq> []
      \<and> AddCommand (\<lambda>c. ()) 3 example_app = Inr (3, s')
      \<and> heap s' 3 = Some e' \<and> Name e = '' foo'' \<and> Name e' = ''foo''"
    by (simp add: example_heap entry_fields TrimSpace_examples Logf_frame
        AddCommand_skipped [of example_app 3 "entry '' foo'' [] True" "''foo''"])
next
  have "Index ''foo'' '':'' \<noteq> 0"
    by simp
  from AddCommand_accepted [where n = "''foo''" and initialize = "\<lambda>c. ()",
      OF example_heap(7) _ _ _ this example_app_fields(2,3,4) refl]
  obtain s1 where s1: "AddCommand (\<lambda>c. ()) 6 example_app = Inr (6, s1)"
    "commands (the_app s1) = Some [''foo'' \<mapsto> 6]"
    "heap s1 3 = Some (entry '' foo'' [] True)"
    by (auto simp: entry_fields TrimSpace_examples example_heap)
  from AddCommand_skipped [where n = "''foo''" and initialize = "\<lambda>c. ()", OF s1(3)]
  have "AddCommand (\<lambda>c. ()) 3 s1 =
      Inr (3, Logf VerbDebug ''command %s has been disabled, skip add'' [''foo'']
                (s1\<lparr>heap := (heap s1)(3 \<mapsto> (entry '' foo'' [] True)\<lparr>Name := ''foo''\<rparr>)\<rparr>))"
    by (simp add: entry_fields TrimSpace_examples)
  with s1 show "\<exists>s1 e s2 cm. AddCommand (\<lambda>c. ()) 6 example_app = Inr (6, s1)
      \<and> heap s1 3 = Some e \<and> IsDisabled e \<and> TrimSpace (Name e) = ''foo''
      \<and> AddCommand (\<lambda>c. ()) 3 s1 = Inr (3, s2)
      \<and> Commands s2 = Some cm \<and> cm ''foo'' = Some 6"
    by (simp add: entry_fields TrimSpace_examples Commands_def Logf_frame)
qed

text \<open>
  C10. A disabled entry whose trimmed name begins with a colon does not end the process:
  the check for a disabled entry comes before the check of the module prefix, so the
  entry is skipped and returned and the application is unchanged. The same entry, when
  enabled, ends the process with the message about the empty module.
\<close>

theorem AddCommand_disabled_leading_colon:
  assumes "heap s c = Some e" and "IsDisabled e" and "TrimSpace (Name e) = CHR '':'' # r"
  shows "(\<exists>s'. AddCommand initialize c s = Inr (c, s') \<and> the_app s' = the_app s)
     \<and> (\<exists>s'. AddCommand initialize c (s\<lparr>heap := (heap s)(c \<mapsto> e\<lparr>Disabled := False\<rparr>)\<rparr>) =
               Inl (Fatal ''The added command module can not be empty.'', s'))"
proof
  from assms(2) have "Disabled e" by (simp add: IsDisabled_def)
  from AddCommand_skipped [where initialize = initialize, OF assms(1) assms(3) _ this]
  show "\<exists>s'. AddCommand initialize c s = Inr (c, s') \<and> the_app s' = the_app s"
    by (simp add: Logf_frame)
next
  let ?s = "s\<lparr>heap := (heap s)(c \<mapsto> e\<lparr>Disabled := False\<rparr>)\<rparr>"
  have "heap ?s c = Some (e\<lparr>Disabled := False\<rparr>)" by simp
  from AddCommand_colon [where initialize = initialize and r = r, OF this] assms(3)
  show "\<exists>s'. AddCommand initialize c ?s =
               Inl (Fatal ''The added command module can not be empty.'', s')"
    by simp
qed

theorem AddCommand_disabled_leading_colon_witness:
  "(\<exists>s'. AddCommand (\<lambda>c. ()) 2 example_app = Inr (2, s') \<and> the_app s' = the_app example_app)
   \<and> (\<exists>s'. AddCommand (\<lambda>c. ())  2
             (example_app\<lparr>heap := (heap example_app)
                (2 \<mapsto> (entry '':foo'' [] True)\<lparr>Disabled := False\<rparr>)\<rparr>) =
           Inl (Fatal ''The added command module can not be empty.'', s'))"
proof -
  have h: "heap example_app 2 = Some (entry '':foo'' [] True)"
    by (simp add: example_heap)
  have d: "IsDisabled (entry '':foo'' [] True)"
    by (simp add: entry_fields)
  have n: "TrimSpace (Name (entry '':foo'' [] True)) = CHR '':'' # ''foo''"
    by (simp add: entry_fields TrimSpace_examples)
  from AddCommand_disabled_leading_colon [where initialize = "\<lambda>c. ()", OF h d n]
  show ?thesis .
qed

section \<open>The module of an accepted entry\<close>

text \<open>
  C4. For an accepted entry (enabled, trimmed name non-empty with no colon at position
  0, maps made), \<open>AddCommand\<close> sets \<open>Module\<close> to the part of the name before its first
  colon when the name has a colon, and to the empty string when it has none, and puts
  the entry under its name into the bucket of \<open>moduleCommands\<close> keyed by that module.
  Every other bucket, and every other name of that bucket, is as before.
\<close>

theorem AddCommand_module:
  assumes "heap s c = Some e" and "allocated s"
    and "n = TrimSpace (Name e)" and "n \<noteq> []" and "hd n \<noteq> CHR '':''"
    and "\<not> IsDisabled e"
  shows "\<exists>s' e' mc bucket. AddCommand initialize c s = Inr (c, s')
     \<and> heap s' c = Some e' \<and> Name e' = n
     \<and> Module e' = (if CHR '':'' \<in> set n then takeWhile (\<lambda>ch. ch \<noteq> CHR '':'') n else [])
     \<and> (CHR '':'' \<in> set n \<longrightarrow>
          CHR '':'' \<notin> set (Module e') \<and> (\<exists>r. n = Module e' @ CHR '':'' # r))
     \<and> moduleCommands (the_app s') = Some mc
     \<and> mc (Module e') = Some bucket \<and> bucket n = Some c
     \<and> (\<forall>ms. moduleCommands (the_app s) = Some ms \<longrightarrow>
          (\<forall>m'. m' \<noteq> Module e' \<longrightarrow> mc m' = ms m') \<and>
          (\<forall>n'. n' \<noteq> n \<longrightarrow>
             bucket n' = (case ms (Module e') of None \<Rightarrow> None | Some b \<Rightarrow> b n')))"
proof -
  define m where "m = (if CHR '':'' \<in> set n then takeWhile (\<lambda>ch. ch \<noteq> CHR '':'') n else [])"
  from assms(2) obtain ns cs ms where maps:
    "names (the_app s) = Some ns" "commands (the_app s) = Some cs"
    "moduleCommands (the_app s) = Some ms"
    by (auto simp: allocated_def)
  from assms(4,5) have idx: "Index n '':'' \<noteq> 0"
    by (auto simp: Index_colon_0)
  from assms(6) have en: "\<not> Disabled e"
    by (simp add: IsDisabled_def)
  have split: "CHR '':'' \<in> set n \<Longrightarrow> CHR '':'' \<notin> set m \<and> (\<exists>r. n = m @ CHR '':'' # r)"
  proof -
    assume a: "CHR '':'' \<in> set n"
    then have m: "m = takeWhile (\<lambda>ch. ch \<noteq> CHR '':'') n"
      by (simp add: m_def)
    from a have "dropWhile (\<lambda>ch. ch \<noteq> CHR '':'') n \<noteq> []"
      by simp
    moreover have "dropWhile (\<lambda>ch. ch \<noteq> CHR '':'') n \<noteq> [] \<Longrightarrow>
        hd (dropWhile (\<lambda>ch. ch \<noteq> CHR '':'') n) = CHR '':''"
      using hd_dropWhile [of "\<lambda>ch. ch \<noteq> CHR '':''" n] by simp
    ultimately obtain r where "dropWhile (\<lambda>ch. ch \<noteq> CHR '':'') n = CHR '':'' # r"
      by (cases "dropWhile (\<lambda>ch. ch \<noteq> CHR '':'') n") auto
    then have "n = m @ CHR '':'' # r"
      using takeWhile_dropWhile_id [of "\<lambda>ch. ch \<noteq> CHR '':''" n] m by simp
    moreover have "CHR '':'' \<notin> set m"
      using m by (auto dest: set_takeWhileD)
    ultimately show ?thesis by blast
  qed
  from AddCommand_accepted [where initialize = initialize,
      OF assms(1) assms(3) [symmetric] assms(4) en idx maps m_def]
  obtain s' where s': "AddCommand initialize c s = Inr (c, s')"
    "moduleCommands (the_app s') =
       Some (ms(m \<mapsto> (case ms m of None \<Rightarrow> Map.empty | Some b \<Rightarrow> b)(n \<mapsto> c)))"
    "heap s' = (heap s)(c \<mapsto> e\<lparr>Name := n, Module := m, app := True,
            rest := initialize (e\<lparr>Name := n, Module := m, app := True\<rparr>)\<rparr>)"
    by blast
  show ?thesis
    using s' split maps(3)
    by (auto simp: m_def [symmetric] split: option.splits)
qed

theorem AddCommand_module_witness:
  "\<exists>s' e' mc bucket. AddCommand (\<lambda>c. ()) 0 example_app = Inr (0, s')
     \<and> heap s' 0 = Some e' \<and> Name e' = ''mod:cmd'' \<and> Module e' = ''mod''
     \<and> moduleCommands (the_app s') = Some mc
     \<and> mc ''mod'' = Some bucket \<and> bucket ''mod:cmd'' = Some 0"
proof -
  have n: "''mod:cmd'' = TrimSpace (Name (entry '' mod:cmd '' [''mc''] False))"
    by (simp add: entry_fields TrimSpace_examples)
  have d: "\<not> IsDisabled (entry '' mod:cmd '' [''mc''] False)"
    by (simp add: entry_fields)
  from AddCommand_module [where initialize = "\<lambda>c. ()",
      OF example_heap(1) example_app_allocated n _ _ d]
  show ?thesis
    by auto
qed

section \<open>The running maximum of the name lengths\<close>

lemma AddCommand_success_length:
  assumes "AddCommand initialize c s = Inr (r, s')" and "heap s c = Some e"
    and "\<not> Disabled e"
  shows "int (length (TrimSpace (Name e))) \<le> nameMaxLength (the_app s')"
  using assms
  by (auto simp: AddCommand_def Let_def IsDisabled_def exitWithErr_def
      AddAliases_frame Logf_frame split: option.splits if_splits)

lemma AddMore_mono:
  "nameMaxLength (the_app s) \<le> nameMaxLength (the_app (final_state (AddMore initialize cs s)))"
proof (induction cs arbitrary: s)
  case Nil
  show ?case by (simp add: final_state_def)
next
  case (Cons c cs)
  show ?case
  proof (cases "AddCommand initialize c s")
    case (Inl a)
    with AddCommand_mono [of s initialize c] show ?thesis
      by (simp add: final_state_def)
  next
    case (Inr b)
    obtain r s1 where b: "b = (r, s1)" by (cases b)
    from AddCommand_mono [of s initialize c] Inr b
    have "nameMaxLength (the_app s) \<le> nameMaxLength (the_app s1)"
      by (simp add: final_state_def)
    also have "\<dots> \<le> nameMaxLength (the_app (final_state (AddMore initialize cs s1)))"
      by (rule Cons.IH)
    finally show ?thesis
      using Inr b by simp
  qed
qed

lemma AddMore_append:
  "AddMore initialize (xs @ ys) s =
     (case AddMore initialize xs s of Inl a \<Rightarrow> Inl a | Inr (u, s1) \<Rightarrow> AddMore initialize ys s1)"
  by (induction xs arbitrary: s) (auto split: sum.splits)

lemma Add_mono:
  "nameMaxLength (the_app s) \<le> nameMaxLength (the_app (final_state (Add initialize c others s)))"
proof (cases "AddCommand initialize c s")
  case (Inl a)
  with AddCommand_mono [of s initialize c] show ?thesis
    by (simp add: Add_def final_state_def)
next
  case (Inr b)
  obtain r s1 where b: "b = (r, s1)" by (cases b)
  from AddCommand_mono [of s initialize c] Inr b
  have "nameMaxLength (the_app s) \<le> nameMaxLength (the_app s1)"
    by (simp add: final_state_def)
  also have "\<dots> \<le> nameMaxLength (the_app (final_state (AddMore initialize others s1)))"
    by (rule AddMore_mono)
  finally show ?thesis
    using Inr b by (cases others) (simp_all add: Add_def final_state_def)
qed

lemma hooks_frame:
  "nameMaxLength (the_app (On name h s)) = nameMaxLength (the_app s)"
  "nameMaxLength (the_app (fireEvent event d s)) = nameMaxLength (the_app s)"
  "nameMaxLength (the_app (Initialize helpVars s)) = nameMaxLength (the_app s)"
  by (simp_all add: On_def fireEvent_def Initialize_def SimpleHooks_On_def SimpleHooks_Add_def
      SimpleHooks_Fire_def AddVars_def Logf_def Let_def)

lemma setters_frame:
  "nameMaxLength (the_app (SetLogo logo style s)) = nameMaxLength (the_app s)"
  "nameMaxLength (the_app (DefaultCommand name s)) = nameMaxLength (the_app s)"
  "nameMaxLength (the_app (AddError err s)) = nameMaxLength (the_app s)"
  "nameMaxLength (the_app (SetDebugMode s)) = nameMaxLength (the_app s)"
  "nameMaxLength (the_app (SetQuietMode s)) = nameMaxLength (the_app s)"
  "nameMaxLength (the_app (SetVerbose level s)) = nameMaxLength (the_app s)"
  by (simp_all add: SetLogo_def DefaultCommand_def AddError_def SetDebugMode_def
      SetQuietMode_def SetVerbose_def Let_def)

lemma AddMore_registered_length:
  assumes "AddMore initialize cs s = Inr ((), s')"
    and "cs = pre @ c # post" and "AddMore initialize pre s = Inr ((), s1)"
    and "heap s1 c = Some e" and "\<not> Disabled e"
  shows "int (length (TrimSpace (Name e))) \<le> nameMaxLength (the_app s')"
proof -
  from assms(1,2,3) have run: "AddMore initialize (c # post) s1 = Inr ((), s')"
    by (simp add: AddMore_append)
  then obtain r s2 where c: "AddCommand initialize c s1 = Inr (r, s2)"
    and post: "AddMore initialize post s2 = Inr ((), s')"
    by (auto split: sum.splits)
  from AddCommand_success_length [OF c assms(4,5)]
  have "int (length (TrimSpace (Name e))) \<le> nameMaxLength (the_app s2)" .
  also from AddMore_mono [of s2 initialize post] post
  have "\<dots> \<le> nameMaxLength (the_app s')"
    by (simp add: final_state_def)
  finally show ?thesis .
qed

text \<open>
  C5. \<open>nameMaxLength\<close> is 12 in the application \<open>NewApp\<close> returns (a callback handed to
  \<open>NewApp\<close> or \<open>Config\<close> is assumed to leave the field alone: it is not exported). No
  operation on the application lowers it, whether the operation returns or aborts:
  \<open>AddCommand\<close>, \<open>Add\<close>, \<open>AddAliases\<close>, \<open>On\<close>, \<open>fireEvent\<close>, \<open>Initialize\<close>, \<open>Config\<close>, and
  the setters. And after any sequence of \<open>AddCommand\<close> calls on a new application that
  all return, it is at least 12 and at least the length of the trimmed name of every
  enabled entry handed in along the way, that is, of every name registered.
\<close>

theorem nameMaxLength_monotone:
  assumes "\<forall>f \<in> set fn. \<forall>s. nameMaxLength (the_app (f s)) = nameMaxLength (the_app s)"
  shows "nameMaxLength (the_app (NewApp helpVars fn g)) = 12
     \<and> nameMaxLength (the_app s) \<le>
         nameMaxLength (the_app (final_state (AddCommand initialize c s)))
     \<and> nameMaxLength (the_app s) \<le>
         nameMaxLength (the_app (final_state (Add initialize c others s)))
     \<and> nameMaxLength (the_app s) \<le> nameMaxLength (the_app (AddAliases n al s))
     \<and> nameMaxLength (the_app s) \<le> nameMaxLength (the_app (On name h s))
     \<and> nameMaxLength (the_app s) \<le> nameMaxLength (the_app (fireEvent event d s))
     \<and> nameMaxLength (the_app s) \<le> nameMaxLength (the_app (Initialize helpVars s))
     \<and> (\<forall>f \<in> set fn. nameMaxLength (the_app s) \<le> nameMaxLength (the_app (Config (Some f) s)))
     \<and> nameMaxLength (the_app s) \<le> nameMaxLength (the_app (Config None s))
     \<and> nameMaxLength (the_app s) \<le> nameMaxLength (the_app (SetLogo logo style s))
     \<and> nameMaxLength (the_app s) \<le> nameMaxLength (the_app (DefaultCommand name s))
     \<and> nameMaxLength (the_app s) \<le> nameMaxLength (the_app (AddError err s))
     \<and> nameMaxLength (the_app s) \<le> nameMaxLength (the_app (SetDebugMode s))
     \<and> nameMaxLength (the_app s) \<le> nameMaxLength (the_app (SetQuietMode s))
     \<and> nameMaxLength (the_app s) \<le> nameMaxLength (the_app (SetVerbose level s))
     \<and> (\<forall>s'. AddMore initialize cs (NewApp helpVars fn g) = Inr ((), s') \<longrightarrow>
           12 \<le> nameMaxLength (the_app s') \<and>
           (\<forall>pre k post s1 e.
               cs = pre @ k # post \<and>
               AddMore initialize pre (NewApp helpVars fn g) = Inr ((), s1) \<and>
               heap s1 k = Some e \<and> \<not> IsDisabled e \<longrightarrow>
               int (length (TrimSpace (Name e))) \<le> nameMaxLength (the_app s')))"
proof -
  have new: "nameMaxLength (the_app (NewApp helpVars fn g)) = 12"
  proof (cases fn)
    case Nil
    then show ?thesis
      by (simp add: NewApp_def hooks_frame newAppLiteral_def)
  next
    case (Cons f fs)
    with assms show ?thesis
      by (simp add: NewApp_def hooks_frame newAppLiteral_def)
  qed
  have seq: "12 \<le> nameMaxLength (the_app s')"
    if "AddMore initialize cs (NewApp helpVars fn g) = Inr ((), s')" for s'
    using AddMore_mono [of "NewApp helpVars fn g" initialize cs] that new
    by (simp add: final_state_def)
  have cfg: "\<forall>f \<in> set fn. nameMaxLength (the_app s) \<le> nameMaxLength (the_app (Config (Some f) s))"
    using assms by (simp add: Config_def)
  have reg: "int (length (TrimSpace (Name e))) \<le> nameMaxLength (the_app s')"
    if "AddMore initialize cs (NewApp helpVars fn g) = Inr ((), s')"
      and "cs = pre @ k # post"
      and "AddMore initialize pre (NewApp helpVars fn g) = Inr ((), s1)"
      and "heap s1 k = Some e" and "\<not> IsDisabled e" for s' pre k post s1 e
    using AddMore_registered_length [OF that(1,2,3,4)] that(5)
    by (simp add: IsDisabled_def)
  show ?thesis
    using new seq cfg reg
    by (simp add: AddCommand_mono Add_mono AddAliases_frame hooks_frame setters_frame
        Config_def) blast
qed

theorem nameMaxLength_monotone_witness:
  "nameMaxLength (the_app example_app) = 12
   \<and> nameMaxLength (the_app (NewApp (\<lambda>a. Map.empty) [DefaultCommand ''help'']
         example_process)) = 12
   \<and> (\<exists>s1 s'. AddMore (\<lambda>c. ()) [7] example_app = Inr ((), s1)
        \<and> AddMore (\<lambda>c. ()) [7, 0] example_app = Inr ((), s')
        \<and> 12 \<le> nameMaxLength (the_app s')
        \<and> int (length ''module:long-command'') \<le> nameMaxLength (the_app s')
        \<and> int (length ''mod:cmd'') \<le> nameMaxLength (the_app s'))"
proof -
  have i7: "Index ''module:long-command'' '':'' \<noteq> 0" and i0: "Index ''mod:cmd'' '':'' \<noteq> 0"
    by simp_all
  from AddCommand_accepted [where initialize = "\<lambda>c. ()" and n = "''module:long-command''",
      OF example_heap(8) _ _ _ i7 example_app_fields(2,3,4) refl]
  obtain s1 where s1: "AddCommand (\<lambda>c. ()) 7 example_app = Inr (7, s1)"
    "names (the_app s1) \<noteq> None" "commands (the_app s1) \<noteq> None"
    "moduleCommands (the_app s1) \<noteq> None"
    "heap s1 0 = Some (entry '' mod:cmd '' [''mc''] False)"
    by (auto simp: entry_fields TrimSpace_examples example_heap)
  from s1(2,3,4) obtain ns cs ms where maps: "names (the_app s1) = Some ns"
    "commands (the_app s1) = Some cs" "moduleCommands (the_app s1) = Some ms"
    by auto
  from AddCommand_accepted [where initialize = "\<lambda>c. ()" and n = "''mod:cmd''",
      OF s1(5) _ _ _ i0 maps refl]
  obtain s' where s': "AddCommand (\<lambda>c. ()) 0 s1 = Inr (0, s')"
    by (auto simp: entry_fields TrimSpace_examples)
  have run1: "AddMore (\<lambda>c. ()) [7] example_app = Inr ((), s1)"
    using s1(1) by simp
  have run: "AddMore (\<lambda>c. ()) [7, 0] example_app = Inr ((), s')"
    using s1(1) s' by simp
  have fn: "\<forall>f \<in> set ([] :: (unit state \<Rightarrow> unit state) list).
      \<forall>s. nameMaxLength (the_app (f s)) = nameMaxLength (the_app s)"
    by simp
  note inst = nameMaxLength_monotone [where helpVars = "\<lambda>a. Map.empty"
      and g = example_process and initialize = "\<lambda>c. ()" and cs = "[7, 0]", OF fn,
      folded example_app_def]
  from inst have a: "nameMaxLength (the_app example_app) = 12"
    by blast
  from inst run have b: "12 \<le> nameMaxLength (the_app s')"
    by blast
  from inst run have all: "\<And>pre k post s1 e.
        [7, 0] = pre @ k # post \<Longrightarrow>
        AddMore (\<lambda>c. ()) pre example_app = Inr ((), s1) \<Longrightarrow>
        heap s1 k = Some e \<Longrightarrow> \<not> IsDisabled e \<Longrightarrow>
        int (length (TrimSpace (Name e))) \<le> nameMaxLength (the_app s')"
    by blast
  from all [of "[]" 7 "[0]" example_app "entry ''module:long-command'' [] False"]
  have c: "int (length ''module:long-command'') \<le> nameMaxLength (the_app s')"
    by (simp add: example_heap entry_fields TrimSpace_examples)
  from all [of "[7]" 0 "[]" s1 "entry '' mod:cmd '' [''mc''] False"] run1 s1(5)
  have d: "int (length ''mod:cmd'') \<le> nameMaxLength (the_app s')"
    by (simp add: entry_fields TrimSpace_examples)
  have cb: "\<forall>f \<in> set [DefaultCommand ''help'' :: unit state \<Rightarrow> unit state].
      \<forall>s. nameMaxLength (the_app (f s)) = nameMaxLength (the_app s)"
    by (simp add: setters_frame)
  from nameMaxLength_monotone [where helpVars = "\<lambda>a. Map.empty"
      and g = example_process, OF cb]
  have a': "nameMaxLength (the_app (NewApp (\<lambda>a. Map.empty) [DefaultCommand ''help'']
         example_process)) = 12"
    by blast
  from a a' b c d run run1 show ?thesis
    by blast
qed

section \<open>Registering a name twice\<close>

text \<open>
  C6. Let an accepted entry at \<open>c1\<close> be registered, and then a second accepted entry at
  \<open>c2\<close> whose trimmed name is the same. Both calls return. After the first,
  \<open>Commands()\<close> maps the name to \<open>c1\<close>; after the second it maps the name to \<open>c2\<close> and
  to nothing else, no key was added to \<open>Commands()\<close> or \<open>Names()\<close> by the second call,
  every other key is as the first call left it, and the entry found under the name has
  the fields of the second registration.
\<close>

theorem AddCommand_twice_replaces:
  assumes "heap s c1 = Some e1" and "allocated s"
    and "n = TrimSpace (Name e1)" and "n \<noteq> []" and "hd n \<noteq> CHR '':''"
    and "\<not> IsDisabled e1"
    and "AddCommand initialize c1 s = Inr (r1, s1)"
    and "heap s1 c2 = Some e2" and "TrimSpace (Name e2) = n" and "\<not> IsDisabled e2"
  shows "\<exists>s2 cm1 nm1 cm2 nm2 e2'.
       Commands s1 = Some cm1 \<and> cm1 n = Some c1 \<and> Names s1 = Some nm1
     \<and> AddCommand initialize c2 s1 = Inr (c2, s2)
     \<and> Commands s2 = Some cm2 \<and> cm2 = cm1(n \<mapsto> c2) \<and> dom cm2 = dom cm1
     \<and> {p. cm2 n = Some p} = {c2}
     \<and> Names s2 = Some nm2 \<and> nm2 = nm1 \<and> nm2 n = Some (int (length n))
     \<and> heap s2 c2 = Some e2' \<and> Name e2' = n \<and> Aliases e2' = Aliases e2
     \<and> Disabled e2' = Disabled e2 \<and> app e2'"
proof -
  from assms(2) obtain ns cs ms where maps:
    "names (the_app s) = Some ns" "commands (the_app s) = Some cs"
    "moduleCommands (the_app s) = Some ms"
    by (auto simp: allocated_def)
  from assms(4,5) have idx: "Index n '':'' \<noteq> 0"
    by (auto simp: Index_colon_0)
  from assms(6,10) have en: "\<not> Disabled e1" "\<not> Disabled e2"
    by (simp_all add: IsDisabled_def)
  from AddCommand_accepted [where initialize = initialize,
      OF assms(1) assms(3) [symmetric] assms(4) en(1) idx maps refl] assms(7)
  have s1: "names (the_app s1) = Some (ns(n \<mapsto> int (length n)))"
    "commands (the_app s1) = Some (cs(n \<mapsto> c1))"
    "\<exists>ms1. moduleCommands (the_app s1) = Some ms1"
    by auto
  then obtain ms1 where ms1: "moduleCommands (the_app s1) = Some ms1"
    by blast
  from AddCommand_accepted [where initialize = initialize,
      OF assms(8) assms(9) assms(4) en(2) idx s1(1,2) ms1 refl]
  obtain s2 where s2: "AddCommand initialize c2 s1 = Inr (c2, s2)"
    "names (the_app s2) = Some ((ns(n \<mapsto> int (length n)))(n \<mapsto> int (length n)))"
    "commands (the_app s2) = Some ((cs(n \<mapsto> c1))(n \<mapsto> c2))"
    "\<exists>e2'. heap s2 c2 = Some e2' \<and> Name e2' = n \<and> Aliases e2' = Aliases e2
        \<and> Disabled e2' = Disabled e2 \<and> app e2'"
    by auto
  from s1(1,2) s2 show ?thesis
    by (auto simp: Commands_def Names_def)
qed

theorem AddCommand_twice_replaces_witness:
  "\<exists>s1 s2 cm2 nm2 e2'.
       AddCommand (\<lambda>c. ()) 0 example_app = Inr (0, s1)
     \<and> AddCommand (\<lambda>c. ()) 8 s1 = Inr (8, s2)
     \<and> Commands s1 = Some [''mod:cmd'' \<mapsto> 0]
     \<and> Commands s2 = Some cm2 \<and> cm2 = [''mod:cmd'' \<mapsto> 8] \<and> {p. cm2 ''mod:cmd'' = Some p} = {8}
     \<and> Names s2 = Some nm2 \<and> nm2 = [''mod:cmd'' \<mapsto> 7]
     \<and> heap s2 8 = Some e2' \<and> Name e2' = ''mod:cmd'' \<and> Aliases e2' = []"
proof -
  have n: "''mod:cmd'' = TrimSpace (Name (entry '' mod:cmd '' [''mc''] False))"
    and n2: "TrimSpace (Name (entry ''mod:cmd'' [] False)) = ''mod:cmd''"
    by (simp_all add: entry_fields TrimSpace_examples)
  have d: "\<not> IsDisabled (entry '' mod:cmd '' [''mc''] False)"
    and d2: "\<not> IsDisabled (entry ''mod:cmd'' [] False)"
    by (simp_all add: entry_fields)
  have i: "Index ''mod:cmd'' '':'' \<noteq> 0" and ne: "''mod:cmd'' \<noteq> []"
    and h: "hd ''mod:cmd'' \<noteq> CHR '':''"
    by simp_all
  from AddCommand_accepted [where initialize = "\<lambda>c. ()" and n = "''mod:cmd''",
      OF example_heap(1) n [symmetric] ne _ i example_app_fields(2,3,4) refl]
  obtain s1 where s1: "AddCommand (\<lambda>c. ()) 0 example_app = Inr (0, s1)"
    "heap s1 8 = Some (entry ''mod:cmd'' [] False)"
    "commands (the_app s1) = Some [''mod:cmd'' \<mapsto> 0]"
    "names (the_app s1) = Some [''mod:cmd'' \<mapsto> 7]"
    by (auto simp: entry_fields example_heap)
  from AddCommand_twice_replaces [where initialize = "\<lambda>c. ()",
      OF example_heap(1) example_app_allocated n ne h d s1(1) s1(2) n2 d2] s1
  show ?thesis
    by (auto simp: Commands_def Names_def entry_fields)
qed

section \<open>Aliases\<close>

text \<open>
  C7. \<open>AddAliases(name, list)\<close> makes every alias of the list resolve to \<open>name\<close>, whatever
  it resolved to before, and leaves every other alias alone; it returns normally, logs
  nothing and touches nothing else of the catalog. So after
  \<open>AddAliases("foo", ["f","fo"])\<close> and then \<open>AddAliases("bar", ["f"])\<close> the alias \<open>f\<close>
  resolves to \<open>bar\<close> and the alias \<open>fo\<close> still resolves to \<open>foo\<close>, and the log is as it
  was before the two calls.
\<close>

theorem AddAliases_last_write_wins:
  "(\<forall>a \<in> set al. aliases (the_app (AddAliases name al s)) a = Some name)
   \<and> (\<forall>a. a \<notin> set al \<longrightarrow>
         aliases (the_app (AddAliases name al s)) a = aliases (the_app s) a)
   \<and> logged (AddAliases name al s) = logged s
   \<and> hook_trace (AddAliases name al s) = hook_trace s
   \<and> heap (AddAliases name al s) = heap s
   \<and> Commands (AddAliases name al s) = Commands s
   \<and> Names (AddAliases name al s) = Names s
   \<and> aliases (the_app (AddAliases ''bar'' [''f'']
         (AddAliases ''foo'' [''f'', ''fo''] s))) ''f'' = Some ''bar''
   \<and> aliases (the_app (AddAliases ''bar'' [''f'']
         (AddAliases ''foo'' [''f'', ''fo''] s))) ''fo'' = Some ''foo''
   \<and> logged (AddAliases ''bar'' [''f''] (AddAliases ''foo'' [''f'', ''fo''] s)) = logged s"
  by (simp add: AddAliases_aliases AddAliases_frame Commands_def Names_def)

theorem AddAliases_last_write_wins_witness:
  "aliases (the_app (AddAliases ''foo'' [''f'', ''fo''] example_app)) ''f'' = Some ''foo''
   \<and> aliases (the_app (AddAliases ''bar'' [''f'']
         (AddAliases ''foo'' [''f'', ''fo''] example_app))) ''f'' = Some ''bar''
   \<and> aliases (the_app (AddAliases ''bar'' [''f'']
         (AddAliases ''foo'' [''f'', ''fo''] example_app))) ''fo'' = Some ''foo''
   \<and> aliases (the_app (AddAliases ''bar'' [''f'']
         (AddAliases ''foo'' [''f'', ''fo''] example_app))) ''b'' = None
   \<and> logged (AddAliases ''bar'' [''f''] (AddAliases ''foo'' [''f'', ''fo''] example_app)) =
       logged example_app"
proof -
  note first = AddAliases_last_write_wins
    [where name = "''foo''" and al = "[''f'', ''fo'']" and s = example_app]
  note second = AddAliases_last_write_wins
    [where name = "''bar''" and al = "[''f'']"
       and s = "AddAliases ''foo'' [''f'', ''fo''] example_app"]
  from first have f1: "aliases (the_app (AddAliases ''foo'' [''f'', ''fo''] example_app)) ''f''
      = Some ''foo''"
    and f2: "aliases (the_app (AddAliases ''foo'' [''f'', ''fo''] example_app)) ''fo''
      = Some ''foo''"
    and f3: "aliases (the_app (AddAliases ''foo'' [''f'', ''fo''] example_app)) ''b''
      = aliases (the_app example_app) ''b''"
    and f4: "logged (AddAliases ''foo'' [''f'', ''fo''] example_app) = logged example_app"
    by simp_all
  from second have s1: "aliases (the_app (AddAliases ''bar'' [''f'']
         (AddAliases ''foo'' [''f'', ''fo''] example_app))) ''f'' = Some ''bar''"
    and s2: "aliases (the_app (AddAliases ''bar'' [''f'']
         (AddAliases ''foo'' [''f'', ''fo''] example_app))) ''fo''
      = aliases (the_app (AddAliases ''foo'' [''f'', ''fo''] example_app)) ''fo''"
    and s3: "aliases (the_app (AddAliases ''bar'' [''f'']
         (AddAliases ''foo'' [''f'', ''fo''] example_app))) ''b''
      = aliases (the_app (AddAliases ''foo'' [''f'', ''fo''] example_app)) ''b''"
    and s4: "logged (AddAliases ''bar'' [''f''] (AddAliases ''foo'' [''f'', ''fo''] example_app))
      = logged (AddAliases ''foo'' [''f'', ''fo''] example_app)"
    by simp_all
  from f1 f2 f3 f4 s1 s2 s3 s4 show ?thesis
    by (simp add: example_app_fields)
qed

section \<open>Hooks\<close>

lemma handlers_On:
  "handlers (On name h s) event =
     (if event = name then handlers s event @ [h] else handlers s event)"
  by (simp add: On_def SimpleHooks_On_def handlers_def Logf_def)

lemma handlers_fold_On:
  "handlers (fold (On name) hs s) event =
     (if event = name then handlers s event @ hs else handlers s event)"
  by (induction hs arbitrary: s) (simp_all add: handlers_On)

lemma hook_trace_fold_On:
  "hook_trace (fold (On name) hs s) = hook_trace s @ map (Installed name) hs"
  by (induction hs arbitrary: s) (simp_all add: On_def SimpleHooks_On_def Logf_def)

lemma hook_trace_fireEvent:
  "hook_trace (fireEvent event d s) =
     hook_trace s @ Fired event # map (\<lambda>h. Invoked event h d) (handlers s event)"
  by (simp add: fireEvent_def SimpleHooks_Fire_def handlers_def Logf_def)

text \<open>
  C8. Firing an event invokes the handlers registered for it, each exactly once, in
  the order of their registration, with the payload, before \<open>fireEvent\<close> returns; it
  changes neither the application nor any command, and logs one debug message.
  Registering with \<open>On\<close> appends to
  the handlers of that event and of no other. With no handler registered the firing
  invokes nothing. So after \<open>On("init", h1)\<close> and \<open>On("init", h2)\<close> on a registry with no
  \<open>init\<close> handler, firing \<open>init\<close> invokes \<open>h1\<close> and then \<open>h2\<close>, once each; and the same
  holds for any list of handlers registered in order.
\<close>

theorem fireEvent_invokes_in_order:
  "hook_trace (fireEvent event d s) =
       hook_trace s @ Fired event # map (\<lambda>h. Invoked event h d) (handlers s event)
   \<and> the_app (fireEvent event d s) = the_app s
   \<and> heap (fireEvent event d s) = heap s
   \<and> logged (fireEvent event d s) = logged s @
       (if VerbDebug \<le> verbose s
        then [(VerbDebug, ''[App.Fire] trigger the application event: %s'', [event])] else [])
   \<and> handlers (On name h s) event =
       (if event = name then handlers s event @ [h] else handlers s event)
   \<and> (handlers s event = [] \<longrightarrow>
         hook_trace (fireEvent event d s) = hook_trace s @ [Fired event])
   \<and> (handlers s ''init'' = [] \<longrightarrow>
         hook_trace (fireEvent ''init'' d (On ''init'' h2 (On ''init'' h1 s))) =
           hook_trace s @
           [Installed ''init'' h1, Installed ''init'' h2, Fired ''init'',
            Invoked ''init'' h1 d, Invoked ''init'' h2 d])
   \<and> hook_trace (fireEvent name d (fold (On name) hs s)) =
       hook_trace s @ map (Installed name) hs @
       Fired name # map (\<lambda>h. Invoked name h d) (handlers s name @ hs)"
  by (simp add: hook_trace_fireEvent handlers_On handlers_fold_On hook_trace_fold_On)
    (simp add: fireEvent_def SimpleHooks_Fire_def On_def SimpleHooks_On_def Logf_def)

theorem fireEvent_invokes_in_order_witness:
  "handlers example_app ''init'' = []
   \<and> hook_trace (fireEvent ''init'' None example_app) =
       hook_trace example_app @ [Fired ''init'']
   \<and> hook_trace (fireEvent ''init'' None
         (On ''init'' (Handler 2) (On ''init'' (Handler 1) example_app))) =
       hook_trace example_app @
       [Installed ''init'' (Handler 1), Installed ''init'' (Handler 2), Fired ''init'',
        Invoked ''init'' (Handler 1) None, Invoked ''init'' (Handler 2) None]"
proof -
  have h: "handlers example_app ''init'' = []"
    by (simp add: handlers_def example_app_def NewApp_def Initialize_def fireEvent_def
        SimpleHooks_Fire_def SimpleHooks_Add_def AddVars_def Logf_def Let_def
        example_process_def newAppLiteral_def EvtError_def)
  from fireEvent_invokes_in_order [where s = example_app and event = "''init''"
      and d = None and ?h1.0 = "Handler 1" and ?h2.0 = "Handler 2"] h
  show ?thesis
    by blast
qed

text \<open>
  C9. \<open>Initialize\<close> appends the default handler to the handlers of the \<open>error\<close> event and
  then fires \<open>init\<close>, once, with no payload, as its last step: what it adds to the
  activity of the registry is the installation, then the firing, then one invocation
  of each \<open>init\<close> handler registered before. In the application \<open>NewApp()\<close> returns, the
  handlers of \<open>error\<close> are the default handler alone, and with any callback the default
  handler is the last of them; firing \<open>error\<close> there invokes the default handler.
\<close>

theorem Initialize_installs_and_fires:
  "handlers (Initialize helpVars (s :: 'x state)) EvtError =
       handlers s EvtError @ [defaultErrHandler]
   \<and> handlers (Initialize helpVars s) EvtInit = handlers s EvtInit
   \<and> hook_trace (Initialize helpVars s) =
       hook_trace s @ [Installed EvtError defaultErrHandler, Fired EvtInit] @
       map (\<lambda>h. Invoked EvtInit h None) (handlers s EvtInit)
   \<and> length (filter (\<lambda>ev. ev = Fired EvtInit)
         (drop (length (hook_trace s)) (hook_trace (Initialize helpVars s)))) = 1
   \<and> handlers (NewApp helpVars [] (g :: 'x state)) EvtError = [defaultErrHandler]
   \<and> hook_trace (NewApp helpVars [] g) =
       hook_trace g @ [Installed EvtError defaultErrHandler, Fired EvtInit]
   \<and> handlers (NewApp helpVars fn g) EvtError \<noteq> []
   \<and> last (handlers (NewApp helpVars fn g) EvtError) = defaultErrHandler
   \<and> hook_trace (fireEvent EvtError d (NewApp helpVars [] g)) =
       hook_trace (NewApp helpVars [] g) @
       [Fired EvtError, Invoked EvtError defaultErrHandler d]"
proof -
  have e: "handlers (Initialize helpVars s) EvtError = handlers s EvtError @ [defaultErrHandler]"
    for s :: "'x state"
    by (simp add: Initialize_def fireEvent_def SimpleHooks_Fire_def SimpleHooks_Add_def
        AddVars_def Logf_def Let_def handlers_def)
  have i: "handlers (Initialize helpVars s) EvtInit = handlers s EvtInit"
    by (simp add: Initialize_def fireEvent_def SimpleHooks_Fire_def SimpleHooks_Add_def
        AddVars_def Logf_def Let_def handlers_def EvtInit_def EvtError_def)
  have t: "hook_trace (Initialize helpVars s) =
       hook_trace s @ [Installed EvtError defaultErrHandler, Fired EvtInit] @
       map (\<lambda>h. Invoked EvtInit h None) (handlers s EvtInit)"
    for s :: "'x state"
    by (simp add: Initialize_def fireEvent_def SimpleHooks_Fire_def SimpleHooks_Add_def
        AddVars_def Logf_def Let_def handlers_def EvtInit_def EvtError_def)
  have once: "length (filter (\<lambda>ev. ev = Fired EvtInit)
         (drop (length (hook_trace s)) (hook_trace (Initialize helpVars s)))) = 1"
    by (simp add: t filter_map comp_def)
  have n0: "handlers (g\<lparr>the_app := newAppLiteral\<rparr>) ev = []" for ev
    by (simp add: handlers_def newAppLiteral_def)
  have ne: "handlers (NewApp helpVars [] g) EvtError = [defaultErrHandler]"
    by (simp add: NewApp_def e n0)
  have nt: "hook_trace (NewApp helpVars [] g) =
       hook_trace g @ [Installed EvtError defaultErrHandler, Fired EvtInit]"
    by (simp add: NewApp_def t n0)
  have nl: "handlers (NewApp helpVars fn g) EvtError \<noteq> []
      \<and> last (handlers (NewApp helpVars fn g) EvtError) = defaultErrHandler"
    by (simp add: NewApp_def e Let_def)
  from e i t once ne nt nl show ?thesis
    by (simp add: hook_trace_fireEvent)
qed

theorem Initialize_installs_and_fires_witness:
  "handlers example_app EvtError = [defaultErrHandler]
   \<and> hook_trace example_app = [Installed EvtError defaultErrHandler, Fired EvtInit]
   \<and> hook_trace (fireEvent EvtError (Some ''boom'') example_app) =
       [Installed EvtError defaultErrHandler, Fired EvtInit,
        Fired EvtError, Invoked EvtError defaultErrHandler (Some ''boom'')]"
proof -
  note inst = Initialize_installs_and_fires [where helpVars = "\<lambda>a. Map.empty"
      and g = example_process and d = "Some ''boom''", folded example_app_def]
  from inst have "handlers example_app EvtError = [defaultErrHandler]"
    and "hook_trace example_app =
      hook_trace example_process @ [Installed EvtError defaultErrHandler, Fired EvtInit]"
    and "hook_trace (fireEvent EvtError (Some ''boom'') example_app) =
      hook_trace example_app @
      [Fired EvtError, Invoked EvtError defaultErrHandler (Some ''boom'')]"
    by blast+
  then show ?thesis
    by (simp add: example_process_def)
qed

end
